theory Spec2Isabelle
  imports Complex_Main "HOL-Library.Sublist"
begin

section \<open>JavaScript primitives used by the components\<close>

text \<open>
  Strings.  A JavaScript string is a sequence of UTF-16 code units.  The model uses
  \<^typ>\<open>string\<close>, reading each \<^typ>\<open>char\<close> as one code unit in the range U+0000..U+00FF
  (ASCII and Latin-1), which covers every string literal of the mock data.  On that range
  \<open>String.prototype.toLowerCase\<close> works code unit by code unit: it adds 32 to
  \<open>A..Z\<close> (65..90) and to the Latin-1 capitals 192..222 except the multiplication sign
  215, and leaves every other unit alone.
\<close>

definition lowerChar :: "char \<Rightarrow> char" where
  "lowerChar c =
     (let n = (of_char c :: nat)
      in if (65 \<le> n \<and> n \<le> 90) \<or> (192 \<le> n \<and> n \<le> 222 \<and> n \<noteq> 215)
         then char_of (n + 32) else c)"

definition toLowerCase :: "string \<Rightarrow> string" where
  "toLowerCase s = map lowerChar s"

text \<open>
  \<open>s.includes(t)\<close>: does \<open>t\<close> occur in \<open>s\<close> as a contiguous run, at some position?
  The search tries position 0, then moves on by one code unit.
\<close>

fun includesStr :: "string \<Rightarrow> string \<Rightarrow> bool" where
  "includesStr [] t = (t = [])"
| "includesStr (c # s) t = (prefix t (c # s) \<or> includesStr s t)"

text \<open>
  \<open>xs.slice(start, fin)\<close> of \<open>Array.prototype\<close>: a negative bound counts from the
  end of the array, both bounds are clamped to \<open>0..length\<close>, and the result is empty when
  the clamped range is.
\<close>

definition slice :: "'a list \<Rightarrow> int \<Rightarrow> int \<Rightarrow> 'a list" where
  "slice xs start fin =
     (let len = int (length xs);
          k = (if start < 0 then max (len + start) 0 else min start len);
          final = (if fin < 0 then max (len + fin) 0 else min fin len)
      in take (nat (final - k)) (drop (nat k) xs))"

section \<open>BansSection.tsx\<close>

subsection \<open>Ban records\<close>

datatype banType = Temporary | Permanent

datatype severity = Minor | Major | Severe

datatype status = Active | Expired | Appealed

text \<open>
  The value of a filter drop-down: \<open>'all'\<close>, or one of the values of the field it
  filters (\<open>'all' | 'temporary' | 'permanent'\<close> for the type,
  \<open>'all' | 'minor' | 'major' | 'severe'\<close> for the severity).
\<close>

datatype 'a choice = All | Only 'a

text \<open>
  The fields of \<open>interface BanRecord\<close> that the filter, the pagination and the
  statistics read.  The two avatar URLs and the two dates only reach the markup and are
  left out.  The field \<open>id\<close> is named \<open>banId\<close> here.
\<close>

record BanRecord =
  banId :: int
  playerName :: string
  bannedBy :: string
  reason :: string
  banType :: banType
  severity :: severity
  status :: status

definition banRecords :: "BanRecord list" where
  "banRecords =
    [\<lparr>banId = 1, playerName = ''GrieferKing99'', bannedBy = ''AdminSteve'',
       reason = ''Griefing spawn area and destroying player builds'',
       banType = Temporary, severity = Major, status = Active\<rparr>,
     \<lparr>banId = 2, playerName = ''HackerPro2024'', bannedBy = ''ModeratorAlex'',
       reason = ''Using X-ray hacks and fly modifications'',
       banType = Permanent, severity = Severe, status = Active\<rparr>,
     \<lparr>banId = 3, playerName = ''ToxicPlayer123'', bannedBy = ''AdminSteve'',
       reason = ''Harassment and inappropriate language in chat'',
       banType = Temporary, severity = Minor, status = Active\<rparr>,
     \<lparr>banId = 4, playerName = ''DupeExploit'', bannedBy = ''ModeratorSarah'',
       reason = ''Exploiting item duplication glitches'',
       banType = Temporary, severity = Major, status = Active\<rparr>,
     \<lparr>banId = 5, playerName = ''SpamBot2025'', bannedBy = ''AutoMod'',
       reason = ''Automated spam detection - excessive chat flooding'',
       banType = Temporary, severity = Minor, status = Expired\<rparr>,
     \<lparr>banId = 6, playerName = ''CheatEngine'', bannedBy = ''AdminSteve'',
       reason = ''Multiple hacking violations and ban evasion'',
       banType = Permanent, severity = Severe, status = Active\<rparr>,
     \<lparr>banId = 7, playerName = ''BuildDestroyer'', bannedBy = ''ModeratorAlex'',
       reason = ''Destroying community builds and monuments'',
       banType = Temporary, severity = Major, status = Active\<rparr>,
     \<lparr>banId = 8, playerName = ''RuleBreaker'', bannedBy = ''ModeratorSarah'',
       reason = ''Repeated violations of server rules'',
       banType = Temporary, severity = Minor, status = Active\<rparr>,
     \<lparr>banId = 9, playerName = ''PvPCheater'', bannedBy = ''AdminSteve'',
       reason = ''Using combat hacks and kill aura'',
       banType = Temporary, severity = Major, status = Active\<rparr>,
     \<lparr>banId = 10, playerName = ''AltAccount99'', bannedBy = ''AutoMod'',
       reason = ''Ban evasion using alternate account'',
       banType = Permanent, severity = Severe, status = Active\<rparr>]"

subsection \<open>Component state\<close>

text \<open>The six \<open>useState\<close> cells of the component.\<close>

record BansState =
  bans :: "BanRecord list"
  searchTerm :: string
  filterType :: "banType choice"
  filterSeverity :: "severity choice"
  currentPage :: int
  showUnbanModal :: bool

definition initialBansState :: BansState where
  "initialBansState =
     \<lparr>bans = banRecords, searchTerm = '''', filterType = All, filterSeverity = All,
      currentPage = 1, showUnbanModal = False\<rparr>"

definition itemsPerPage :: int where
  "itemsPerPage = 5"

subsection \<open>Computed values\<close>

definition matchesSearch :: "BansState \<Rightarrow> BanRecord \<Rightarrow> bool" where
  "matchesSearch st ban =
     (includesStr (toLowerCase (playerName ban)) (toLowerCase (searchTerm st)) \<or>
      includesStr (toLowerCase (reason ban)) (toLowerCase (searchTerm st)) \<or>
      includesStr (toLowerCase (bannedBy ban)) (toLowerCase (searchTerm st)))"

definition matchesType :: "BansState \<Rightarrow> BanRecord \<Rightarrow> bool" where
  "matchesType st ban = (filterType st = All \<or> Only (banType ban) = filterType st)"

definition matchesSeverity :: "BansState \<Rightarrow> BanRecord \<Rightarrow> bool" where
  "matchesSeverity st ban = (filterSeverity st = All \<or> Only (severity ban) = filterSeverity st)"

text \<open>The callback of \<open>bans.filter\<close>, lines 287 to 296.\<close>

definition keepsBan :: "BansState \<Rightarrow> BanRecord \<Rightarrow> bool" where
  "keepsBan st ban = (matchesSearch st ban \<and> matchesType st ban \<and> matchesSeverity st ban)"

definition filteredBans :: "BansState \<Rightarrow> BanRecord list" where
  "filteredBans st = filter (keepsBan st) (bans st)"

text \<open>
  Lines 304 to 306, with the page size as a parameter: \<open>Math.ceil(length / size)\<close>
  and \<open>slice(startIndex, startIndex + size)\<close>.  The division is the one of the reals;
  the component instantiates the size with \<open>itemsPerPage\<close>.
\<close>

definition pageCount :: "int \<Rightarrow> 'a list \<Rightarrow> int" where
  "pageCount pageSize xs = \<lceil>real (length xs) / real_of_int pageSize\<rceil>"

definition pageItems :: "int \<Rightarrow> int \<Rightarrow> 'a list \<Rightarrow> 'a list" where
  "pageItems pageSize page xs =
     (let startIndex = (page - 1) * pageSize in slice xs startIndex (startIndex + pageSize))"

definition totalPages :: "BansState \<Rightarrow> int" where
  "totalPages st = pageCount itemsPerPage (filteredBans st)"

definition startIndex :: "BansState \<Rightarrow> int" where
  "startIndex st = (currentPage st - 1) * itemsPerPage"

definition paginatedBans :: "BansState \<Rightarrow> BanRecord list" where
  "paginatedBans st = pageItems itemsPerPage (currentPage st) (filteredBans st)"

subsection \<open>Event handlers\<close>

text \<open>
  The three \<open>onChange\<close> handlers of the filter bar (lines 473, 482 and 492) call one
  state setter each.
\<close>

definition setSearchTerm :: "string \<Rightarrow> BansState \<Rightarrow> BansState" where
  "setSearchTerm v st = st\<lparr>searchTerm := v\<rparr>"

definition setFilterType :: "banType choice \<Rightarrow> BansState \<Rightarrow> BansState" where
  "setFilterType v st = st\<lparr>filterType := v\<rparr>"

definition setFilterSeverity :: "severity choice \<Rightarrow> BansState \<Rightarrow> BansState" where
  "setFilterSeverity v st = st\<lparr>filterSeverity := v\<rparr>"

text \<open>
  The user's actions on the component.  The pagination bar is rendered only when
  \<open>totalPages > 1\<close>; it holds one button for each page \<open>1..totalPages\<close>, a Previous
  button disabled on page 1 and a Next button disabled on the last page.  An action on a
  control that is not rendered or is disabled cannot happen: \<open>None\<close>.
\<close>

datatype bansEvent =
    ChangeSearch string
  | ChangeType "banType choice"
  | ChangeSeverity "severity choice"
  | ClickPrevious
  | ClickPage int
  | ClickNext
  | OpenUnbanModal
  | CloseUnbanModal

fun bansStep :: "BansState \<Rightarrow> bansEvent \<Rightarrow> BansState option" where
  "bansStep st (ChangeSearch v) = Some (setSearchTerm v st)"
| "bansStep st (ChangeType v) = Some (setFilterType v st)"
| "bansStep st (ChangeSeverity v) = Some (setFilterSeverity v st)"
| "bansStep st ClickPrevious =
     (if totalPages st > 1 \<and> currentPage st \<noteq> 1
      then Some (st\<lparr>currentPage := max (currentPage st - 1) 1\<rparr>) else None)"
| "bansStep st (ClickPage page) =
     (if totalPages st > 1 \<and> 1 \<le> page \<and> page \<le> totalPages st
      then Some (st\<lparr>currentPage := page\<rparr>) else None)"
| "bansStep st ClickNext =
     (if totalPages st > 1 \<and> currentPage st \<noteq> totalPages st
      then Some (st\<lparr>currentPage := min (currentPage st + 1) (totalPages st)\<rparr>) else None)"
| "bansStep st OpenUnbanModal = Some (st\<lparr>showUnbanModal := True\<rparr>)"
| "bansStep st CloseUnbanModal =
     (if showUnbanModal st then Some (st\<lparr>showUnbanModal := False\<rparr>) else None)"

fun bansRun :: "BansState \<Rightarrow> bansEvent list \<Rightarrow> BansState option" where
  "bansRun st [] = Some st"
| "bansRun st (e # es) = (case bansStep st e of None \<Rightarrow> None | Some st' \<Rightarrow> bansRun st' es)"

section \<open>FAQSection.tsx\<close>

text \<open>
  \<open>interface FAQItem\<close> without its icon.  \<open>activeCategory\<close> is declared
  \<open>useState<string>\<close> and compared with the item's category by \<open>===\<close>, so both are
  strings here.  The field \<open>id\<close> is named \<open>faqId\<close>.
\<close>

record FAQItem =
  faqId :: int
  question :: string
  answer :: string
  category :: string

record FAQState =
  activeCategory :: string
  openItems :: "int set"

definition initialFAQState :: FAQState where
  "initialFAQState = \<lparr>activeCategory = ''all'', openItems = {}\<rparr>"

text \<open>
  \<open>toggleItem\<close> copies the set, deletes the id from the copy when it is there and adds
  it otherwise, and stores the copy.
\<close>

definition toggleItem :: "int \<Rightarrow> FAQState \<Rightarrow> FAQState" where
  "toggleItem i st =
     (let newOpenItems = openItems st
      in if i \<in> newOpenItems
         then st\<lparr>openItems := newOpenItems - {i}\<rparr>
         else st\<lparr>openItems := insert i newOpenItems\<rparr>)"

text \<open>
  \<open>filteredFAQs\<close>, lines 246 to 248.  The module constant \<open>faqData\<close> is an argument:
  the filter reads nothing of it but the categories.
\<close>

definition filteredFAQs :: "FAQItem list \<Rightarrow> FAQState \<Rightarrow> FAQItem list" where
  "filteredFAQs faqData st =
     (if activeCategory st = ''all'' then faqData
      else filter (\<lambda>item. category item = activeCategory st) faqData)"

section \<open>The staff section\<close>

text \<open>
  The staff section keeps one cell \<open>expandedCard : number | null\<close>: the id of the one
  expanded card, or null.  \<open>toggleCard\<close> also calls \<open>preventDefault\<close> and
  \<open>stopPropagation\<close> on the click event, which touch no state of the component.
\<close>

definition toggleCard :: "int \<Rightarrow> int option \<Rightarrow> int option" where
  "toggleCard memberId expandedCard =
     (if expandedCard = Some memberId then None else Some memberId)"

text \<open>The card of a member renders expanded when \<open>expandedCard === member.id\<close>.\<close>

definition isExpanded :: "int option \<Rightarrow> int \<Rightarrow> bool" where
  "isExpanded expandedCard memberId = (expandedCard = Some memberId)"

section \<open>Cycling controllers\<close>

text \<open>
  The bundle carousel of the shop: \<open>activeSlide\<close> starts at 0 (in the application
  component) and the two arrows move it over \<open>bundles\<close>, whose length is the
  argument \<open>len\<close>.
\<close>

definition previousBundle :: "int \<Rightarrow> int \<Rightarrow> int" where
  "previousBundle len activeSlide = (if activeSlide > 0 then activeSlide - 1 else len - 1)"

definition nextBundle :: "int \<Rightarrow> int \<Rightarrow> int" where
  "nextBundle len activeSlide = (if activeSlide < len - 1 then activeSlide + 1 else 0)"

datatype arrow = PreviousArrow | NextArrow

fun clickArrow :: "int \<Rightarrow> int \<Rightarrow> arrow \<Rightarrow> int" where
  "clickArrow len activeSlide PreviousArrow = previousBundle len activeSlide"
| "clickArrow len activeSlide NextArrow = nextBundle len activeSlide"

definition carouselRun :: "int \<Rightarrow> arrow list \<Rightarrow> int" where
  "carouselRun len arrows = foldl (clickArrow len) 0 arrows"

text \<open>
  The remainder operator \<open>%\<close> of JavaScript on integers: the result takes the sign of
  the dividend.  A zero divisor gives NaN in JavaScript, which the integers do not have;
  the model is used with a positive divisor only.
\<close>

definition jsRem :: "int \<Rightarrow> int \<Rightarrow> int" where
  "jsRem a b = sgn a * (\<bar>a\<bar> mod \<bar>b\<bar>)"

text \<open>
  The text slider of the hero section: \<open>currentTextIndex\<close> starts at 0 and every tick
  of the 4 second interval applies \<open>prev => (prev + 1) % sliderTexts.length\<close>.
\<close>

definition tickText :: "int \<Rightarrow> int \<Rightarrow> int" where
  "tickText len prev = jsRem (prev + 1) len"

definition sliderRun :: "int \<Rightarrow> nat \<Rightarrow> int" where
  "sliderRun len ticks = (tickText len ^^ ticks) 0"

text \<open>The lengths of the two module constants \<open>bundles\<close> and \<open>sliderTexts\<close>.\<close>

definition bundlesLength :: int where
  "bundlesLength = 3"

definition sliderTextsLength :: int where
  "sliderTextsLength = 6"

section \<open>Properties as the specification words them\<close>







text \<open>The elements of \<open>xs\<close> at the indices \<open>lo \<le> i < hi\<close> that exist.\<close>

definition elementsAt :: "'a list \<Rightarrow> nat \<Rightarrow> nat \<Rightarrow> 'a list" where
  "elementsAt xs lo hi = map (\<lambda>i. xs ! i) [lo ..< min hi (length xs)]"

section \<open>Auxiliary facts\<close>











lemma slice_nonneg:
  "0 \<le> a \<Longrightarrow> 0 \<le> b \<Longrightarrow> slice xs a b = take (nat (b - a)) (drop (nat a) xs)"
  by (auto simp: slice_def Let_def min_def max_def)

lemma neg_div_ceil:
  fixes n k :: int
  assumes "0 < k" shows "- ((- n) div k) = (n + k - 1) div k"
proof (cases "n mod k = 0")
  case True
  have "n + k - 1 = k * (n div k) + (k - 1)"
    using True mult_div_mod_eq [of k n] by simp
  then have "(n + k - 1) div k = n div k"
    using assms int_div_pos_eq [of "n + k - 1" k "n div k" "k - 1"] by simp
  moreover have "(- n) div k = - (n div k)"
    using True assms by (simp add: zdiv_zminus1_eq_if)
  ultimately show ?thesis by simp
next
  case False
  have "0 \<le> n mod k" using assms by simp
  with False have "0 < n mod k" by linarith
  moreover have "n mod k < k" using assms by simp
  ultimately have r: "0 \<le> n mod k - 1" "n mod k - 1 < k" by linarith+
  have "n + k - 1 = k * (n div k + 1) + (n mod k - 1)"
    using mult_div_mod_eq [of k n] by (simp add: algebra_simps)
  then have "(n + k - 1) div k = n div k + 1"
    using r int_div_pos_eq [of "n + k - 1" k "n div k + 1" "n mod k - 1"] by simp
  moreover have "(- n) div k = - (n div k) - 1"
    using False assms by (simp add: zdiv_zminus1_eq_if)
  ultimately show ?thesis by simp
qed

lemma pageCount_div:
  assumes "0 < k" shows "pageCount k xs = (int (length xs) + k - 1) div k"
proof -
  have "pageCount k xs = - ((- int (length xs)) div k)"
    unfolding pageCount_def using ceiling_divide_eq_div [of "int (length xs)" k] by simp
  then show ?thesis using neg_div_ceil [OF assms] by simp
qed


lemma pageItems_take_drop:
  assumes "1 \<le> p" "0 < k"
  shows "pageItems k p xs = take (nat k) (drop (nat ((p - 1) * k)) xs)"
proof -
  have "0 \<le> (p - 1) * k" using assms by simp
  moreover have "0 \<le> (p - 1) * k + k" using assms calculation by linarith
  ultimately show ?thesis
    by (simp add: pageItems_def Let_def slice_nonneg)
qed

lemma take_drop_elementsAt:
  "take k (drop lo xs) = elementsAt xs lo (lo + k)"
proof (rule nth_equalityI)
  show "length (take k (drop lo xs)) = length (elementsAt xs lo (lo + k))"
    by (simp add: elementsAt_def)
next
  fix i
  assume "i < length (take k (drop lo xs))"
  then have "i < k" and "lo + i < length xs" by auto
  then show "take k (drop lo xs) ! i = elementsAt xs lo (lo + k) ! i"
    by (simp add: elementsAt_def)
qed

lemma concat_pages:
  assumes "0 < k"
  shows "concat (map (\<lambda>p. pageItems k p xs) [1..int n]) = take (n * nat k) xs"
proof (induction n)
  case 0
  show ?case by simp
next
  case (Suc n)
  have "[1..int (Suc n)] = [1..int n] @ [int n + 1]"
    using upto_rec2 [of 1 "int n + 1"] by (simp add: add.commute)
  moreover have "pageItems k (int n + 1) xs = take (nat k) (drop (n * nat k) xs)"
    using assms pageItems_take_drop [of "int n + 1" k xs] by (simp add: nat_mult_distrib)
  moreover have "take (Suc n * nat k) xs = take (n * nat k) xs @ take (nat k) (drop (n * nat k) xs)"
    using take_add [of "n * nat k" "nat k" xs] by (simp add: add.commute)
  ultimately show ?case
    using Suc.IH by simp
qed

lemma keepsBan_currentPage: "keepsBan (st\<lparr>currentPage := p\<rparr>) = keepsBan st"
  by (rule ext) (simp add: keepsBan_def matchesSearch_def matchesType_def matchesSeverity_def)

lemma filteredBans_currentPage [simp]: "filteredBans (st\<lparr>currentPage := p\<rparr>) = filteredBans st"
  by (simp add: filteredBans_def keepsBan_currentPage)

lemma totalPages_div: "totalPages st = (int (length (filteredBans st)) + 4) div 5"
  by (simp add: totalPages_def itemsPerPage_def pageCount_div)

lemma includesStr_empty: "includesStr s []"
  by (cases s) simp_all

lemma toggleItem_twice: "toggleItem i (toggleItem i st) = st"
  by (cases "i \<in> openItems st") (simp_all add: toggleItem_def Let_def insert_absorb)

lemma nextBundle_mod:
  assumes "0 \<le> i" "i < len"
  shows "nextBundle len i = (i + 1) mod len"
proof (cases "i < len - 1")
  case True
  then show ?thesis using assms by (simp add: nextBundle_def)
next
  case False
  then have "i + 1 = len" using assms by linarith
  then show ?thesis using False by (simp add: nextBundle_def)
qed

lemma previousBundle_mod:
  assumes "0 \<le> i" "i < len"
  shows "previousBundle len i = (i - 1 + len) mod len"
proof (cases "i > 0")
  case True
  then have "(i - 1 + len) mod len = (i - 1) mod len" by simp
  also have "\<dots> = i - 1" using True assms by (intro mod_pos_pos_trivial) simp_all
  finally show ?thesis using True by (simp add: previousBundle_def)
next
  case False
  then have i: "i = 0" using assms by linarith
  have "(len - 1) mod len = len - 1" using assms i by (intro mod_pos_pos_trivial) simp_all
  then show ?thesis using i by (simp add: previousBundle_def)
qed

lemma tickText_mod: "0 \<le> i \<Longrightarrow> 0 < len \<Longrightarrow> tickText len i = (i + 1) mod len"
  by (simp add: tickText_def jsRem_def)

lemma clickArrow_range:
  "0 \<le> i \<Longrightarrow> i < len \<Longrightarrow> 0 \<le> clickArrow len i a \<and> clickArrow len i a < len"
  by (cases a) (simp_all add: nextBundle_mod previousBundle_mod)

lemma carousel_range:
  "0 \<le> i \<Longrightarrow> i < len \<Longrightarrow>
   0 \<le> foldl (clickArrow len) i as \<and> foldl (clickArrow len) i as < len"
  by (induction as arbitrary: i) (simp_all add: clickArrow_range)

lemma tick_funpow:
  assumes "0 \<le> i" "i < len"
  shows "(tickText len ^^ k) i = (i + int k) mod len"
proof (induction k)
  case 0
  show ?case using assms by simp
next
  case (Suc k)
  have "0 \<le> (i + int k) mod len" "0 < len" using assms by simp_all
  then have "tickText len ((i + int k) mod len) = ((i + int k) mod len + 1) mod len"
    by (rule tickText_mod)
  also have "\<dots> = (i + int k + 1) mod len"
    by (rule mod_add_left_eq)
  also have "\<dots> = (i + int (Suc k)) mod len"
    by (simp add: ac_simps)
  finally show ?case using Suc.IH by simp
qed

lemma next_funpow:
  assumes "0 \<le> i" "i < len"
  shows "(nextBundle len ^^ k) i = (i + int k) mod len"
proof (induction k)
  case 0
  show ?case using assms by simp
next
  case (Suc k)
  have "0 \<le> (i + int k) mod len" "(i + int k) mod len < len" using assms by simp_all
  then have "nextBundle len ((i + int k) mod len) = ((i + int k) mod len + 1) mod len"
    by (rule nextBundle_mod)
  also have "\<dots> = (i + int k + 1) mod len"
    by (rule mod_add_left_eq)
  also have "\<dots> = (i + int (Suc k)) mod len"
    by (simp add: ac_simps)
  finally show ?case using Suc.IH by simp
qed

section \<open>The claims\<close>

text \<open>
  Claim C1.  For every list of ban records, search term, type filter and severity filter
  and every page index \<open>currentPage \<ge> 1\<close>: \<open>totalPages\<close> is the ceiling of the
  number of filtered records divided by the page size 5, that is the least number of pages
  of five that hold them all, and 0 when nothing passes the filter; the displayed items
  are the filtered records at the indices from \<open>(currentPage - 1) * 5\<close> up to, not
  including, \<open>currentPage * 5\<close>, and there are none when that range lies beyond the
  end of the filtered list.
\<close>

theorem C1_pagination:
  assumes "1 \<le> currentPage st"
  shows "totalPages st = \<lceil>real (length (filteredBans st)) / 5\<rceil>
       \<and> 5 * (totalPages st - 1) < int (length (filteredBans st))
       \<and> int (length (filteredBans st)) \<le> 5 * totalPages st
       \<and> (filteredBans st = [] \<longrightarrow> totalPages st = 0)
       \<and> paginatedBans st =
           elementsAt (filteredBans st) (nat ((currentPage st - 1) * 5)) (nat (currentPage st * 5))
       \<and> (int (length (filteredBans st)) \<le> (currentPage st - 1) * 5 \<longrightarrow> paginatedBans st = [])"
proof -
  let ?fb = "filteredBans st" and ?p = "currentPage st"
  have tp: "totalPages st = (int (length ?fb) + 4) div 5" by (rule totalPages_div)
  have c1: "totalPages st = \<lceil>real (length ?fb) / 5\<rceil>"
    by (simp add: totalPages_def pageCount_def itemsPerPage_def)
  have c2: "5 * (totalPages st - 1) < int (length ?fb)" unfolding tp by presburger
  have c3: "int (length ?fb) \<le> 5 * totalPages st" unfolding tp by presburger
  have c4: "?fb = [] \<longrightarrow> totalPages st = 0" unfolding tp by simp
  have pb: "paginatedBans st = take 5 (drop (nat ((?p - 1) * 5)) ?fb)"
    using assms pageItems_take_drop [of ?p 5 ?fb]
    by (simp add: paginatedBans_def itemsPerPage_def)
  have hi: "nat (?p * 5) = nat ((?p - 1) * 5) + 5" using assms by (simp add: nat_eq_iff)
  have c5: "paginatedBans st = elementsAt ?fb (nat ((?p - 1) * 5)) (nat (?p * 5))"
    unfolding pb hi by (rule take_drop_elementsAt)
  have c6: "int (length ?fb) \<le> (?p - 1) * 5 \<longrightarrow> paginatedBans st = []"
    unfolding pb by simp
  from c1 c2 c3 c4 c5 c6 show ?thesis by blast
qed

theorem C1_pagination_witness:
  "1 \<le> currentPage (initialBansState\<lparr>currentPage := 2\<rparr>)
   \<and> totalPages (initialBansState\<lparr>currentPage := 2\<rparr>) = 2
   \<and> map banId (paginatedBans (initialBansState\<lparr>currentPage := 2\<rparr>)) = [6, 7, 8, 9, 10]"
proof -
  let ?s = "initialBansState\<lparr>currentPage := 2\<rparr>"
  have h: "1 \<le> currentPage ?s" by simp
  have len: "length (filteredBans ?s) = 10" by code_simp
  have ids: "map banId (elementsAt (filteredBans ?s) 5 10) = [6, 7, 8, 9, 10]" by code_simp
  note c = C1_pagination [OF h]
  from c len have "totalPages ?s = 2" by simp
  moreover from c have "paginatedBans ?s = elementsAt (filteredBans ?s) 5 10" by simp
  ultimately show ?thesis using h ids by simp
qed

text \<open>
  Claim C2.  For every state of the component, the pages \<open>1..totalPages\<close> put one
  after the other are the filtered list, which is the input list with the records the
  filter rejects removed: a subsequence of the input in its original order.
\<close>

theorem C2_pages_reconstruct:
  "concat (map (\<lambda>p. paginatedBans (st\<lparr>currentPage := p\<rparr>)) [1..totalPages st]) = filteredBans st
   \<and> filteredBans st = filter (keepsBan st) (bans st)
   \<and> subseq (filteredBans st) (bans st)"
proof -
  let ?fb = "filteredBans st"
  have tp: "totalPages st = (int (length ?fb) + 4) div 5" by (rule totalPages_div)
  define n where "n = nat (totalPages st)"
  have n: "totalPages st = int n" unfolding n_def tp by simp
  have "length ?fb \<le> n * 5" using n tp by linarith
  then have "take (n * nat 5) ?fb = ?fb" by simp
  then have "concat (map (\<lambda>p. pageItems 5 p ?fb) [1..int n]) = ?fb"
    using concat_pages [of 5 ?fb n] by simp
  then have "concat (map (\<lambda>p. paginatedBans (st\<lparr>currentPage := p\<rparr>)) [1..totalPages st]) = ?fb"
    by (simp add: paginatedBans_def itemsPerPage_def n)
  moreover have "?fb = filter (keepsBan st) (bans st)" by (simp add: filteredBans_def)
  ultimately show ?thesis by simp
qed

theorem C2_pages_reconstruct_witness:
  "concat (map (\<lambda>p. paginatedBans (initialBansState\<lparr>currentPage := p\<rparr>)) [1..2]) = banRecords"
proof -
  have len: "length (filteredBans initialBansState) = 10" by code_simp
  have fb: "filteredBans initialBansState = banRecords" by code_simp
  have "totalPages initialBansState = 2" by (simp add: totalPages_div len)
  then show ?thesis using C2_pages_reconstruct [of initialBansState] fb by simp
qed



text \<open>
  Claim C4, as stated, fails for the staff section: with the card of member 2 expanded,
  toggling member 1 twice leaves no card expanded, so the state is not restored and the
  expansion of member 2 has changed.
\<close>

theorem C4_toggle_twice_counterexample:
  "toggleCard 1 (toggleCard 1 (Some 2)) \<noteq> Some 2
   \<and> isExpanded (Some 2) 2 \<and> \<not> isExpanded (toggleCard 1 (toggleCard 1 (Some 2))) 2"
  by (simp add: toggleCard_def isExpanded_def)

text \<open>
  Claim C4, amended.  Toggling the same id twice restores the whole open-items set of the
  FAQ section.  In the staff section it restores the expansion of the toggled card; it
  restores the whole state when no other card was expanded, and when another card was
  expanded no card is expanded afterwards.
\<close>

theorem C4_toggle_twice:
  "toggleItem i (toggleItem i st) = st
   \<and> (isExpanded (toggleCard m (toggleCard m e)) m \<longleftrightarrow> isExpanded e m)
   \<and> (e = None \<or> e = Some m \<longrightarrow> toggleCard m (toggleCard m e) = e)
   \<and> (e \<noteq> None \<and> e \<noteq> Some m \<longrightarrow> toggleCard m (toggleCard m e) = None)"
  by (auto simp: toggleItem_twice toggleCard_def isExpanded_def)

theorem C4_toggle_twice_witness:
  "toggleItem 3 (toggleItem 3 initialFAQState) = initialFAQState
   \<and> (Some 7 = None \<or> Some 7 = Some (7::int)) \<and> toggleCard 7 (toggleCard 7 (Some 7)) = Some 7
   \<and> (Some 2 \<noteq> None \<and> Some 2 \<noteq> Some (7::int)) \<and> toggleCard 7 (toggleCard 7 (Some 2)) = None"
  using C4_toggle_twice [of 3 initialFAQState 7 "Some 7"]
        C4_toggle_twice [of 3 initialFAQState 7 "Some 2"]
  by simp

text \<open>
  Claim C6.  For a list of positive length \<open>len\<close>: the carousel index after any
  sequence of arrow clicks from 0, and the slider index after any number of ticks from 0,
  lie in \<open>0 \<le> index < len\<close>; on an index in that range, next and tick give
  \<open>(index + 1) mod len\<close> and previous gives \<open>(index - 1 + len) mod len\<close>.
\<close>

theorem C6_index_in_range:
  assumes "0 < len"
  shows "0 \<le> carouselRun len arrows \<and> carouselRun len arrows < len
       \<and> 0 \<le> sliderRun len ticks \<and> sliderRun len ticks < len
       \<and> (\<forall>i. 0 \<le> i \<and> i < len \<longrightarrow>
             nextBundle len i = (i + 1) mod len
           \<and> previousBundle len i = (i - 1 + len) mod len
           \<and> tickText len i = (i + 1) mod len)"
proof -
  have "0 \<le> carouselRun len arrows \<and> carouselRun len arrows < len"
    unfolding carouselRun_def using assms by (intro carousel_range) simp_all
  moreover have "sliderRun len ticks = (0 + int ticks) mod len"
    unfolding sliderRun_def using assms by (intro tick_funpow) simp_all
  then have "0 \<le> sliderRun len ticks \<and> sliderRun len ticks < len"
    using assms by simp
  ultimately show ?thesis
    using assms by (simp add: nextBundle_mod previousBundle_mod tickText_mod)
qed

theorem C6_index_in_range_witness:
  "0 < bundlesLength \<and> 0 < sliderTextsLength
   \<and> 0 \<le> carouselRun bundlesLength [PreviousArrow, NextArrow, NextArrow]
   \<and> carouselRun bundlesLength [PreviousArrow, NextArrow, NextArrow] < bundlesLength
   \<and> 0 \<le> sliderRun sliderTextsLength 7
   \<and> sliderRun sliderTextsLength 7 < sliderTextsLength
   \<and> previousBundle bundlesLength 0 = 2
   \<and> nextBundle bundlesLength 2 = 0
   \<and> tickText sliderTextsLength 5 = 0"
proof -
  have b: "0 < bundlesLength" by (simp add: bundlesLength_def)
  have t: "0 < sliderTextsLength" by (simp add: sliderTextsLength_def)
  note cb = C6_index_in_range [OF b, of "[PreviousArrow, NextArrow, NextArrow]" 7]
  note ct = C6_index_in_range [OF t, of "[]" 7]
  from cb have "previousBundle bundlesLength 0 = (0 - 1 + bundlesLength) mod bundlesLength"
    using b by blast
  then have p: "previousBundle bundlesLength 0 = 2" by (simp add: bundlesLength_def)
  from cb have "nextBundle bundlesLength 2 = (2 + 1) mod bundlesLength"
    by (simp add: bundlesLength_def)
  then have n: "nextBundle bundlesLength 2 = 0" by (simp add: bundlesLength_def)
  from ct have "tickText sliderTextsLength 5 = (5 + 1) mod sliderTextsLength"
    by (simp add: sliderTextsLength_def)
  then have k: "tickText sliderTextsLength 5 = 0" by (simp add: sliderTextsLength_def)
  from cb ct b t p n k show ?thesis by simp
qed

text \<open>
  Claim C7.  From every index \<open>0 \<le> i < len\<close>, \<open>len\<close> consecutive clicks on the
  next arrow of the carousel, and \<open>len\<close> consecutive ticks of the text slider, lead
  back to \<open>i\<close>.
\<close>

theorem C7_cycle_closure:
  assumes "0 \<le> i" "i < len"
  shows "(nextBundle len ^^ nat len) i = i \<and> (tickText len ^^ nat len) i = i"
  using assms by (simp add: next_funpow tick_funpow)

theorem C7_cycle_closure_witness:
  "(0::int) \<le> 2 \<and> 2 < bundlesLength \<and> (nextBundle bundlesLength ^^ nat bundlesLength) 2 = 2
   \<and> (0::int) \<le> 4 \<and> 4 < sliderTextsLength
   \<and> (tickText sliderTextsLength ^^ nat sliderTextsLength) 4 = 4"
proof -
  have b: "(0::int) \<le> 2" "2 < bundlesLength" by (simp_all add: bundlesLength_def)
  have t: "(0::int) \<le> 4" "4 < sliderTextsLength" by (simp_all add: sliderTextsLength_def)
  from C7_cycle_closure [OF b] C7_cycle_closure [OF t] b t show ?thesis by simp
qed

text \<open>
  Claim C8.  With an empty search string and both filters on \<open>'all'\<close> the ban filter
  returns the whole list, and with the category \<open>'all'\<close> the FAQ filter returns the
  whole list.  This holds for every list, the empty one included.
\<close>

theorem C8_match_all:
  "filteredBans (st\<lparr>searchTerm := '''', filterType := All, filterSeverity := All\<rparr>) = bans st
   \<and> filteredFAQs faqData (fq\<lparr>activeCategory := ''all''\<rparr>) = faqData"
  by (simp add: filteredBans_def keepsBan_def matchesSearch_def matchesType_def
      matchesSeverity_def toLowerCase_def includesStr_empty filteredFAQs_def)

theorem C8_match_all_witness:
  "filteredBans initialBansState = banRecords
   \<and> filteredFAQs [\<lparr>faqId = 1, question = ''q'', answer = ''a'', category = ''general''\<rparr>]
        initialFAQState
      = [\<lparr>faqId = 1, question = ''q'', answer = ''a'', category = ''general''\<rparr>]"
  using C8_match_all [of initialBansState _ initialFAQState]
  by (simp add: initialBansState_def initialFAQState_def)

text \<open>
  Claim C9.  \<open>toggleItem i\<close> leaves the membership of every other id \<open>j\<close> in the
  open-items set as it was (and does not touch the active category).
\<close>

theorem C9_toggle_frame:
  assumes "i \<noteq> j"
  shows "(j \<in> openItems (toggleItem i st) \<longleftrightarrow> j \<in> openItems st)
         \<and> activeCategory (toggleItem i st) = activeCategory st"
  using assms by (auto simp: toggleItem_def Let_def)

theorem C9_toggle_frame_witness:
  "(1::int) \<noteq> 2
   \<and> (2 \<in> openItems (toggleItem 1 (initialFAQState\<lparr>openItems := {2}\<rparr>)))
   \<and> (3 \<notin> openItems (toggleItem 1 (initialFAQState\<lparr>openItems := {2}\<rparr>)))"
  using C9_toggle_frame [of 1 2 "initialFAQState\<lparr>openItems := {2}\<rparr>"]
        C9_toggle_frame [of 1 3 "initialFAQState\<lparr>openItems := {2}\<rparr>"]
  by simp

text \<open>
  Claim C10.  Changing the search term, the type filter or the severity filter leaves
  \<open>currentPage\<close> as it is.  So a state is reachable from the initial one in which
  \<open>currentPage\<close> exceeds \<open>totalPages\<close> and the displayed page is empty although
  the filtered list is not: go to page 2, then select the severity \<open>severe\<close>.
\<close>

theorem C10_page_not_reset:
  "map_option currentPage (bansStep st (ChangeSearch v)) = Some (currentPage st)
   \<and> map_option currentPage (bansStep st (ChangeType t)) = Some (currentPage st)
   \<and> map_option currentPage (bansStep st (ChangeSeverity sv)) = Some (currentPage st)
   \<and> (\<exists>es st'. bansRun initialBansState es = Some st'
         \<and> totalPages st' < currentPage st'
         \<and> paginatedBans st' = []
         \<and> filteredBans st' \<noteq> [])"
proof -
  let ?s1 = "initialBansState\<lparr>currentPage := 2\<rparr>"
  let ?s2 = "setFilterSeverity (Only Severe) ?s1"
  have len0: "length (filteredBans initialBansState) = 10" by code_simp
  have tp0: "totalPages initialBansState = 2" by (simp add: totalPages_div len0)
  have step1: "bansStep initialBansState (ClickPage 2) = Some ?s1" by (simp add: tp0)
  have run: "bansRun initialBansState [ClickPage 2, ChangeSeverity (Only Severe)] = Some ?s2"
    by (simp add: tp0)
  have len2: "length (filteredBans ?s2) = 3" by code_simp
  have tp2: "totalPages ?s2 = 1" by (simp add: totalPages_div len2)
  have cp2: "currentPage ?s2 = 2" by (simp add: setFilterSeverity_def)
  have pb2: "paginatedBans ?s2 = []" by code_simp
  have ne2: "filteredBans ?s2 \<noteq> []" using len2 by auto
  have "\<exists>es st'. bansRun initialBansState es = Some st'
         \<and> totalPages st' < currentPage st' \<and> paginatedBans st' = [] \<and> filteredBans st' \<noteq> []"
    using run tp2 cp2 pb2 ne2 by (intro exI [of _ "[ClickPage 2, ChangeSeverity (Only Severe)]"] exI [of _ ?s2]) simp
  then show ?thesis
    by (simp add: setSearchTerm_def setFilterType_def setFilterSeverity_def)
qed

end
